theory Spec2Isabelle
  imports Complex_Main "HOL-Library.Option_ord"
begin

section \<open>Tables of \<^verbatim>\<open>process_streams.py\<close>\<close>

text \<open>
  The program is a set of Flink SQL statements held in Python strings: four
  \<^verbatim>\<open>CREATE TABLE\<close> statements and three continuous \<^verbatim>\<open>INSERT INTO ... SELECT\<close>
  queries over \<^verbatim>\<open>sensor_source\<close>. Each table is a record with the columns of its DDL,
  in the DDL's order. \<^verbatim>\<open>STRING\<close> is \<^typ>\<open>string\<close>, \<^verbatim>\<open>INT\<close> and \<^verbatim>\<open>BIGINT\<close> are
  \<^typ>\<open>int\<close> (the queries only compare and count them), \<^verbatim>\<open>BOOLEAN\<close> is \<^typ>\<open>bool\<close>,
  \<^verbatim>\<open>TIMESTAMP(3)\<close> is the number of milliseconds since 1970-01-01T00:00:00.000, and
  \<^verbatim>\<open>DOUBLE\<close> is idealised as \<^typ>\<open>real\<close>: arithmetic on readings is exact, where the
  engine rounds every operation to the nearest 64-bit float. A source row carries a value
  in every column, as the events of the data model do. A column of a sink that a query
  can leave without a value (the result of \<^verbatim>\<open>AVG\<close>, of \<^verbatim>\<open>SUM\<close> and of a division)
  is an option, \<^term>\<open>None\<close> being SQL's \<^verbatim>\<open>NULL\<close>.

  The sinks are declared first, so that an unqualified column name such as
  \<^verbatim>\<open>temperature\<close> is the column of \<^verbatim>\<open>sensor_source\<close>, which is what it means in the
  \<^verbatim>\<open>SELECT\<close> lists.
\<close>

type_synonym timestamp = int

record processed_sink =
  sensor_id :: string
  event_time :: timestamp
  temperature :: real
  humidity :: real
  pressure :: real
  temp_trend :: string
  humidity_category :: string
  comfort_index :: real
  anomaly_score :: real
  is_anomaly :: bool
  processing_time :: timestamp

text \<open>
  \<^verbatim>\<open>minio_archive\<close> has the eleven columns of \<^verbatim>\<open>processed_sink\<close>, with the same names
  and types in the same order, followed by the two partition columns.
\<close>

record minio_archive = processed_sink +
  partition_date :: string
  partition_hour :: string

record metrics_sink =
  window_start :: timestamp
  window_end :: timestamp
  building :: string
  sensor_count :: int
  avg_temperature :: "real option"
  avg_humidity :: "real option"
  avg_pressure :: "real option"
  anomaly_count :: "int option"
  anomaly_rate :: "real option"
  low_battery_count :: "int option"

record sensor_source =
  sensor_id :: string
  event_time :: timestamp
  temperature :: real
  humidity :: real
  pressure :: real
  is_anomaly :: bool
  building :: string
  floor_no :: int
  room :: string
  model :: string
  firmware_version :: string
  battery_level :: int

section \<open>Feature engineering: \<^verbatim>\<open>processed_query\<close> and \<^verbatim>\<open>archive_query\<close>\<close>

text \<open>
  One output row per source row. \<^verbatim>\<open>PROCTIME()\<close> reads the wall clock of the machine
  when the row is processed; the clock reading is the first argument of each query's
  row function.
\<close>

definition processed_query :: "timestamp \<Rightarrow> sensor_source \<Rightarrow> processed_sink" where
  "processed_query proctime r =
     \<lparr> processed_sink.sensor_id = sensor_id r,
       processed_sink.event_time = event_time r,
       processed_sink.temperature = temperature r,
       processed_sink.humidity = humidity r,
       processed_sink.pressure = pressure r,
       temp_trend =
         (if temperature r > 25 then ''HOT''
          else if temperature r < 18 then ''COLD''
          else ''NORMAL''),
       humidity_category =
         (if humidity r > 70 then ''HIGH''
          else if humidity r < 30 then ''LOW''
          else ''MODERATE''),
       comfort_index = 100 - \<bar>temperature r - 22\<bar> * 2 - \<bar>humidity r - 45\<bar> * 0.5,
       anomaly_score =
         \<bar>temperature r - 22\<bar> / 22 + \<bar>humidity r - 50\<bar> / 50 + \<bar>pressure r - 1013\<bar> / 1013,
       processed_sink.is_anomaly = is_anomaly r,
       processing_time = proctime \<rparr>"

subsection \<open>\<^verbatim>\<open>DATE_FORMAT\<close>\<close>

text \<open>
  \<^verbatim>\<open>DATE_FORMAT(event_time, 'yyyy-MM-dd')\<close> and \<^verbatim>\<open>DATE_FORMAT(event_time, 'HH')\<close> print
  fields of the proleptic Gregorian calendar date of a \<^verbatim>\<open>TIMESTAMP(3)\<close>, which has no
  time zone. \<open>civil_from_days\<close> turns a day number (days since 1970-01-01) into year,
  month and day by counting in 400-year eras of 146097 days, with the year starting in
  March. \<open>zero_pad n v\<close> prints the last \<open>n\<close> decimal digits of \<open>v\<close>; the years of a
  \<^verbatim>\<open>TIMESTAMP(3)\<close> are 0001 to 9999, so four digits print the year.
\<close>

definition civil_from_days :: "int \<Rightarrow> int \<times> int \<times> int" where
  "civil_from_days n =
     (let z = n + 719468;
          era = z div 146097;
          doe = z mod 146097;
          yoe = (doe - doe div 1460 + doe div 36524 - doe div 146096) div 365;
          doy = doe - (365 * yoe + yoe div 4 - yoe div 100);
          mp = (5 * doy + 2) div 153;
          d = doy - (153 * mp + 2) div 5 + 1;
          m = (if mp < 10 then mp + 3 else mp - 9);
          y = yoe + era * 400 + (if m \<le> 2 then 1 else 0)
      in (y, m, d))"

definition digit :: "int \<Rightarrow> char" where
  "digit d = ''0123456789'' ! nat d"

fun zero_pad :: "nat \<Rightarrow> int \<Rightarrow> string" where
  "zero_pad 0 v = []"
| "zero_pad (Suc n) v = zero_pad n (v div 10) @ [digit (v mod 10)]"

definition DATE_FORMAT_yyyy_MM_dd :: "timestamp \<Rightarrow> string" where
  "DATE_FORMAT_yyyy_MM_dd t =
     (case civil_from_days (t div 86400000) of
        (y, m, d) \<Rightarrow> zero_pad 4 y @ ''-'' @ zero_pad 2 m @ ''-'' @ zero_pad 2 d)"

definition DATE_FORMAT_HH :: "timestamp \<Rightarrow> string" where
  "DATE_FORMAT_HH t = zero_pad 2 (t mod 86400000 div 3600000)"

definition archive_query :: "timestamp \<Rightarrow> sensor_source \<Rightarrow> minio_archive" where
  "archive_query proctime r =
     \<lparr> processed_sink.sensor_id = sensor_id r,
       processed_sink.event_time = event_time r,
       processed_sink.temperature = temperature r,
       processed_sink.humidity = humidity r,
       processed_sink.pressure = pressure r,
       temp_trend =
         (if temperature r > 25 then ''HOT''
          else if temperature r < 18 then ''COLD''
          else ''NORMAL''),
       humidity_category =
         (if humidity r > 70 then ''HIGH''
          else if humidity r < 30 then ''LOW''
          else ''MODERATE''),
       comfort_index = 100 - \<bar>temperature r - 22\<bar> * 2 - \<bar>humidity r - 45\<bar> * 0.5,
       anomaly_score =
         \<bar>temperature r - 22\<bar> / 22 + \<bar>humidity r - 50\<bar> / 50 + \<bar>pressure r - 1013\<bar> / 1013,
       processed_sink.is_anomaly = is_anomaly r,
       processing_time = proctime,
       partition_date = DATE_FORMAT_yyyy_MM_dd (event_time r),
       partition_hour = DATE_FORMAT_HH (event_time r) \<rparr>"



section \<open>Windowed metrics: \<^verbatim>\<open>metrics_query\<close>\<close>

subsection \<open>Built-in functions of the query\<close>

text \<open>
  \<^verbatim>\<open>TUMBLE(event_time, INTERVAL '1' MINUTE)\<close> assigns a row to the window of 60000
  milliseconds that holds its event time; windows start at multiples of the size.
\<close>

definition TUMBLE_START :: "timestamp \<Rightarrow> timestamp" where
  "TUMBLE_START t = t - t mod 60000"

definition TUMBLE_END :: "timestamp \<Rightarrow> timestamp" where
  "TUMBLE_END t = TUMBLE_START t + 60000"

text \<open>
  \<^verbatim>\<open>ROUND(x, d)\<close> rounds to \<open>d\<close> decimal places, a tie away from zero. The aggregate
  functions take the values of their argument over the rows of a group: \<^verbatim>\<open>COUNT(*)\<close>
  is the number of rows; \<^verbatim>\<open>AVG\<close> and \<^verbatim>\<open>SUM\<close> (here \<open>SUM_int\<close>) of no rows are \<^verbatim>\<open>NULL\<close>. A quotient
  with divisor zero has no value in \<^typ>\<open>real\<close> and is \<^term>\<open>None\<close> as well.
\<close>

definition ROUND :: "real \<Rightarrow> nat \<Rightarrow> real" where
  "ROUND x d = sgn x * real_of_int \<lfloor>\<bar>x\<bar> * 10 ^ d + 1 / 2\<rfloor> / 10 ^ d"

definition COUNT :: "'a list \<Rightarrow> int" where
  "COUNT rows = int (length rows)"

definition AVG :: "real list \<Rightarrow> real option" where
  "AVG xs = (if xs = [] then None else Some (sum_list xs / real (length xs)))"

definition SUM_int :: "int list \<Rightarrow> int option" where
  "SUM_int xs = (if xs = [] then None else Some (sum_list xs))"

definition DIVIDE :: "real option \<Rightarrow> int \<Rightarrow> real option" where
  "DIVIDE a b =
     (case a of
        None \<Rightarrow> None
      | Some x \<Rightarrow> if b = 0 then None else Some (x / real_of_int b))"

subsection \<open>The \<^verbatim>\<open>SELECT\<close> list over one group\<close>

text \<open>
  The query groups by \<^verbatim>\<open>TUMBLE(event_time, INTERVAL '1' MINUTE), building\<close>. A group key
  is the start of the window with the building; \<open>metrics_select\<close> is the \<^verbatim>\<open>SELECT\<close> list,
  computed from the key and the rows of the group.
\<close>

type_synonym group_key = "timestamp \<times> string"

definition key_of :: "sensor_source \<Rightarrow> group_key" where
  "key_of r = (TUMBLE_START (event_time r), building r)"

definition metrics_select :: "group_key \<Rightarrow> sensor_source list \<Rightarrow> metrics_sink" where
  "metrics_select k g =
     \<lparr> window_start = fst k,
       window_end = fst k + 60000,
       metrics_sink.building = snd k,
       sensor_count = COUNT g,
       avg_temperature = map_option (\<lambda>x. ROUND x 2) (AVG (map temperature g)),
       avg_humidity = map_option (\<lambda>x. ROUND x 2) (AVG (map humidity g)),
       avg_pressure = map_option (\<lambda>x. ROUND x 2) (AVG (map pressure g)),
       anomaly_count = SUM_int (map (\<lambda>r. if is_anomaly r then 1 else 0) g),
       anomaly_rate =
         map_option (\<lambda>x. ROUND x 3)
           (DIVIDE (map_option real_of_int (SUM_int (map (\<lambda>r. if is_anomaly r then 1 else 0) g)))
              (COUNT g)),
       low_battery_count = SUM_int (map (\<lambda>r. if battery_level r < 20 then 1 else 0) g) \<rparr>"

definition metrics_query :: "sensor_source list \<Rightarrow> metrics_sink list" where
  "metrics_query rows =
     map (\<lambda>k. metrics_select k (filter (\<lambda>r. key_of r = k) rows)) (remdups (map key_of rows))"

definition summary_key :: "metrics_sink \<Rightarrow> group_key" where
  "summary_key m = (window_start m, metrics_sink.building m)"

subsection \<open>The query on the stream\<close>

text \<open>
  \<^verbatim>\<open>WATERMARK FOR event_time AS event_time - INTERVAL '5' SECOND\<close> gives every row the
  watermark candidate \<open>watermark_expr\<close>; the watermark of the source is the largest
  candidate seen, and there is none before the first row. A window is complete under a
  watermark that has reached its last millisecond, \<open>TUMBLE_END - 1\<close>.

  The aggregation holds the rows of the windows that are not complete. A row arrives
  under the watermark of the rows before it: if its window is complete by then it is
  left out, otherwise it joins the held rows. Then the watermark advances over the row,
  and the groups of the windows it completes are summarised by \<open>metrics_query\<close>, written
  to \<^verbatim>\<open>metrics_sink\<close> and released. The watermark is taken to advance after every row;
  the source has one partition.
\<close>

definition watermark_expr :: "sensor_source \<Rightarrow> timestamp" where
  "watermark_expr r = event_time r - 5000"

record job_state =
  watermark :: "timestamp option"
  held :: "sensor_source list"

definition initial_state :: job_state where
  "initial_state = \<lparr> watermark = None, held = [] \<rparr>"

definition advance :: "timestamp option \<Rightarrow> sensor_source \<Rightarrow> timestamp option" where
  "advance wm r =
     (case wm of
        None \<Rightarrow> Some (watermark_expr r)
      | Some w \<Rightarrow> Some (max w (watermark_expr r)))"

definition window_complete :: "timestamp option \<Rightarrow> sensor_source \<Rightarrow> bool" where
  "window_complete wm r =
     (case wm of
        None \<Rightarrow> False
      | Some w \<Rightarrow> TUMBLE_END (event_time r) - 1 \<le> w)"

definition step :: "job_state \<Rightarrow> sensor_source \<Rightarrow> job_state \<times> metrics_sink list" where
  "step s r =
     (let rows = (if window_complete (watermark s) r then held s else held s @ [r]);
          wm = advance (watermark s) r
      in (\<lparr> watermark = wm, held = filter (\<lambda>x. \<not> window_complete wm x) rows \<rparr>,
          metrics_query (filter (window_complete wm) rows)))"

text \<open>
  A run over the rows of the stream in arrival order: the state it reaches, the
  summaries it writes, and the rows that joined a window.
\<close>

fun state_after :: "job_state \<Rightarrow> sensor_source list \<Rightarrow> job_state" where
  "state_after s [] = s"
| "state_after s (r # rs) = state_after (fst (step s r)) rs"

fun emitted :: "job_state \<Rightarrow> sensor_source list \<Rightarrow> metrics_sink list" where
  "emitted s [] = []"
| "emitted s (r # rs) = snd (step s r) @ emitted (fst (step s r)) rs"

fun accepted :: "job_state \<Rightarrow> sensor_source list \<Rightarrow> sensor_source list" where
  "accepted s [] = []"
| "accepted s (r # rs) =
     (if window_complete (watermark s) r then [] else [r]) @ accepted (fst (step s r)) rs"

section \<open>Properties of the feature engineering queries\<close>

text \<open>
  Claim C1. For every source row, \<^verbatim>\<open>temp_trend\<close> is \<^verbatim>\<open>HOT\<close> exactly when the
  temperature is above 25, \<^verbatim>\<open>COLD\<close> exactly when it is below 18 and \<^verbatim>\<open>NORMAL\<close> exactly
  when it is from 18 to 25, both bounds included; \<^verbatim>\<open>humidity_category\<close> is \<^verbatim>\<open>HIGH\<close>
  exactly when the humidity is above 70, \<^verbatim>\<open>LOW\<close> exactly when it is below 30 and
  \<^verbatim>\<open>MODERATE\<close> exactly when it is from 30 to 70.
\<close>

theorem enrichment_thresholds:
  "(temp_trend (processed_query p r) = ''HOT'' \<longleftrightarrow> temperature r > 25) \<and>
   (temp_trend (processed_query p r) = ''COLD'' \<longleftrightarrow> temperature r < 18) \<and>
   (temp_trend (processed_query p r) = ''NORMAL'' \<longleftrightarrow> 18 \<le> temperature r \<and> temperature r \<le> 25) \<and>
   (humidity_category (processed_query p r) = ''HIGH'' \<longleftrightarrow> humidity r > 70) \<and>
   (humidity_category (processed_query p r) = ''LOW'' \<longleftrightarrow> humidity r < 30) \<and>
   (humidity_category (processed_query p r) = ''MODERATE'' \<longleftrightarrow> 30 \<le> humidity r \<and> humidity r \<le> 70)"
  by (simp add: processed_query_def)


text \<open>
  Claim C4 says that two enrichments of the same event are identical in every column.
  The output row holds \<^verbatim>\<open>PROCTIME()\<close>: the same row enriched at clock readings 0 and 1
  gives two different output rows.
\<close>

theorem enrichment_processing_time_counterexample:
  "processed_query 0
     \<lparr> sensor_id = ''sensor_001'', event_time = 1705314600000, temperature = 26,
       humidity = 75, pressure = 1013, is_anomaly = False, building = ''Building_001'',
       floor_no = 1, room = ''Room_1'', model = ''SensorX'', firmware_version = ''1.0'',
       battery_level = 50 \<rparr>
   \<noteq>
   processed_query 1
     \<lparr> sensor_id = ''sensor_001'', event_time = 1705314600000, temperature = 26,
       humidity = 75, pressure = 1013, is_anomaly = False, building = ''Building_001'',
       floor_no = 1, room = ''Room_1'', model = ''SensorX'', firmware_version = ''1.0'',
       battery_level = 50 \<rparr>"
  by (simp add: processed_query_def)

text \<open>
  Claim C4, amended. Two enrichments of the same row differ in \<^verbatim>\<open>processing_time\<close>
  at most: the row enriched at one clock reading, with its \<^verbatim>\<open>processing_time\<close> set to
  another reading, is the row enriched at that other reading. Every other column is a
  function of the source row alone.
\<close>

theorem enrichment_deterministic_up_to_clock:
  "(processed_query p1 r)\<lparr>processing_time := p2\<rparr> = processed_query p2 r"
  by (simp add: processed_query_def)

text \<open>
  Claim C10. The two queries that compute the derived columns, each with its own
  copy of the expressions, agree on \<^verbatim>\<open>temp_trend\<close>, \<^verbatim>\<open>humidity_category\<close>,
  \<^verbatim>\<open>comfort_index\<close> and \<^verbatim>\<open>anomaly_score\<close> for every source row, whenever each of them
  processes it.
\<close>

theorem archive_agrees_with_processed:
  "temp_trend (archive_query p2 r) = temp_trend (processed_query p1 r) \<and>
   humidity_category (archive_query p2 r) = humidity_category (processed_query p1 r) \<and>
   comfort_index (archive_query p2 r) = comfort_index (processed_query p1 r) \<and>
   anomaly_score (archive_query p2 r) = anomaly_score (processed_query p1 r)"
  by (simp add: processed_query_def archive_query_def)

section \<open>Properties of the archive partitions\<close>








section \<open>Properties of the windowed metrics\<close>

subsection \<open>Runs\<close>

lemma state_after_append: "state_after s (xs @ ys) = state_after (state_after s xs) ys"
  by (induction xs arbitrary: s) simp_all

lemma emitted_append: "emitted s (xs @ ys) = emitted s xs @ emitted (state_after s xs) ys"
  by (induction xs arbitrary: s) simp_all

lemma accepted_append: "accepted s (xs @ ys) = accepted s xs @ accepted (state_after s xs) ys"
  by (induction xs arbitrary: s) simp_all

lemma watermark_step: "watermark (fst (step s r)) = advance (watermark s) r"
  by (simp add: step_def Let_def)

lemma held_step:
  "held (fst (step s r)) =
     filter (\<lambda>x. \<not> window_complete (advance (watermark s) r) x)
       (if window_complete (watermark s) r then held s else held s @ [r])"
  by (simp add: step_def Let_def)

lemma emitted_step:
  "snd (step s r) =
     metrics_query (filter (window_complete (advance (watermark s) r))
       (if window_complete (watermark s) r then held s else held s @ [r]))"
  by (simp add: step_def Let_def)

subsection \<open>Watermark\<close>

lemma advance_mono: "wm \<le> advance wm r"
  by (cases wm) (simp_all add: advance_def)



lemma complete_mono: "wm \<le> wm' \<Longrightarrow> window_complete wm r \<Longrightarrow> window_complete wm' r"
  by (cases wm; cases wm') (simp_all add: window_complete_def)

lemma complete_key: "key_of x = key_of y \<Longrightarrow> window_complete wm x = window_complete wm y"
  by (cases wm) (simp_all add: key_of_def window_complete_def TUMBLE_END_def)


subsection \<open>Groups\<close>

lemma summary_key_select: "summary_key (metrics_select k g) = k"
  by (simp add: summary_key_def metrics_select_def)

lemma summary_keys_query: "map summary_key (metrics_query rows) = remdups (map key_of rows)"
  by (simp add: metrics_query_def summary_key_select comp_def)

lemma step_held:
  assumes "held s = filter (\<lambda>x. \<not> window_complete (watermark s) x) A"
  shows "held (fst (step s r)) =
           filter (\<lambda>x. \<not> window_complete (advance (watermark s) r) x)
             (A @ (if window_complete (watermark s) r then [] else [r]))"
proof -
  have mono: "\<not> window_complete (watermark s) x" if "\<not> window_complete (advance (watermark s) r) x" for x
    using that complete_mono[OF advance_mono] by blast
  have "filter (\<lambda>x. \<not> window_complete (advance (watermark s) r) x) (held s) =
          filter (\<lambda>x. \<not> window_complete (advance (watermark s) r) x) A"
    unfolding assms filter_filter by (rule filter_cong) (use mono in auto)
  then show ?thesis by (simp add: held_step)
qed

lemma step_fired:
  assumes "held s = filter (\<lambda>x. \<not> window_complete (watermark s) x) A"
  shows "filter (window_complete (advance (watermark s) r))
           (if window_complete (watermark s) r then held s else held s @ [r]) =
         filter (\<lambda>x. window_complete (advance (watermark s) r) x \<and> \<not> window_complete (watermark s) x)
           (A @ (if window_complete (watermark s) r then [] else [r]))"
proof -
  have "filter (window_complete (advance (watermark s) r)) (held s) =
          filter (\<lambda>x. window_complete (advance (watermark s) r) x \<and> \<not> window_complete (watermark s) x) A"
    unfolding assms filter_filter by (rule filter_cong) auto
  then show ?thesis by simp
qed

lemma held_invariant:
  "held (state_after initial_state evs) =
     filter (\<lambda>x. \<not> window_complete (watermark (state_after initial_state evs)) x)
       (accepted initial_state evs)"
proof (induction evs rule: rev_induct)
  case Nil
  show ?case by (simp add: initial_state_def)
next
  case (snoc r evs)
  show ?case
    using step_held[OF snoc.IH, of r]
    by (simp add: state_after_append accepted_append watermark_step)
qed

lemma emitted_snoc:
  "emitted initial_state (evs @ [r]) =
     emitted initial_state evs @
     metrics_query
       (filter (\<lambda>x. window_complete (advance (watermark (state_after initial_state evs)) r) x \<and>
                    \<not> window_complete (watermark (state_after initial_state evs)) x)
          (accepted initial_state (evs @ [r])))"
  using step_fired[OF held_invariant, of evs r]
  by (simp add: emitted_append accepted_append emitted_step)

lemma accepted_snoc:
  "accepted initial_state (evs @ [r]) =
     accepted initial_state evs @
     (if window_complete (watermark (state_after initial_state evs)) r then [] else [r])"
  by (simp add: accepted_append)

lemma watermark_state_snoc:
  "watermark (state_after initial_state (evs @ [r])) =
     advance (watermark (state_after initial_state evs)) r"
  by (simp add: state_after_append watermark_step)

lemma keys_step:
  assumes mono: "\<And>x. window_complete wm x \<Longrightarrow> window_complete wm' x"
    and A': "A' = A @ (if window_complete wm r then [] else [r])"
    and dist: "distinct (map summary_key E)"
    and keys: "set (map summary_key E) = key_of ` {x \<in> set A. window_complete wm x}"
  shows "distinct (map summary_key
           (E @ metrics_query (filter (\<lambda>x. window_complete wm' x \<and> \<not> window_complete wm x) A')))"
    and "set (map summary_key
           (E @ metrics_query (filter (\<lambda>x. window_complete wm' x \<and> \<not> window_complete wm x) A'))) =
         key_of ` {x \<in> set A'. window_complete wm' x}"
proof -
  let ?F = "filter (\<lambda>x. window_complete wm' x \<and> \<not> window_complete wm x) A'"
  have new: "set (map summary_key (metrics_query ?F)) =
               key_of ` {x \<in> set A'. window_complete wm' x \<and> \<not> window_complete wm x}"
    by (simp add: summary_keys_query)
  have old: "{x \<in> set A'. window_complete wm x} = {x \<in> set A. window_complete wm x}"
    by (auto simp: A' split: if_splits)
  have disj: "set (map summary_key E) \<inter> set (map summary_key (metrics_query ?F)) = {}"
  proof (rule ccontr)
    assume "set (map summary_key E) \<inter> set (map summary_key (metrics_query ?F)) \<noteq> {}"
    then obtain k where "k \<in> key_of ` {x \<in> set A. window_complete wm x}"
      and "k \<in> key_of ` {x \<in> set A'. window_complete wm' x \<and> \<not> window_complete wm x}"
      unfolding keys new by blast
    then obtain x y where "key_of x = k" "window_complete wm x" "key_of y = k" "\<not> window_complete wm y"
      by auto
    then show False using complete_key[of x y wm] by simp
  qed
  have "distinct (map summary_key (metrics_query ?F))"
    by (simp add: summary_keys_query)
  with dist disj show "distinct (map summary_key (E @ metrics_query ?F))"
    by (simp only: map_append distinct_append simp_thms)
  have "{x \<in> set A'. window_complete wm' x} =
          {x \<in> set A'. window_complete wm x} \<union> {x \<in> set A'. window_complete wm' x \<and> \<not> window_complete wm x}"
    using mono by blast
  then have "key_of ` {x \<in> set A'. window_complete wm' x} =
          key_of ` {x \<in> set A. window_complete wm x} \<union>
          key_of ` {x \<in> set A'. window_complete wm' x \<and> \<not> window_complete wm x}"
    by (simp only: old image_Un)
  then show "set (map summary_key (E @ metrics_query ?F)) =
               key_of ` {x \<in> set A'. window_complete wm' x}"
    using keys new by (simp only: map_append set_append)
qed

lemma emitted_keys:
  "distinct (map summary_key (emitted initial_state evs)) \<and>
   set (map summary_key (emitted initial_state evs)) =
     key_of ` {x \<in> set (accepted initial_state evs).
                window_complete (watermark (state_after initial_state evs)) x}"
proof (induction evs rule: rev_induct)
  case Nil
  show ?case by simp
next
  case (snoc r evs)
  have mono: "window_complete (watermark (state_after initial_state evs)) x \<Longrightarrow>
              window_complete (advance (watermark (state_after initial_state evs)) r) x" for x
    using complete_mono[OF advance_mono] by blast
  from snoc.IH have dist: "distinct (map summary_key (emitted initial_state evs))"
    and keys: "set (map summary_key (emitted initial_state evs)) =
      key_of ` {x \<in> set (accepted initial_state evs).
                 window_complete (watermark (state_after initial_state evs)) x}"
    by simp_all
  show ?case
    unfolding emitted_snoc watermark_state_snoc
    using keys_step[OF mono accepted_snoc dist keys] by (rule conjI)
qed

lemma content_step:
  assumes A': "A' = A @ (if window_complete wm r then [] else [r])"
    and keys: "set (map summary_key E) = key_of ` {x \<in> set A. window_complete wm x}"
    and IH: "\<And>m. m \<in> set E \<Longrightarrow>
               m = metrics_select (summary_key m) (filter (\<lambda>x. key_of x = summary_key m) A)"
    and m: "m \<in> set (E @ metrics_query (filter (\<lambda>x. window_complete wm' x \<and> \<not> window_complete wm x) A'))"
  shows "m = metrics_select (summary_key m) (filter (\<lambda>x. key_of x = summary_key m) A')"
proof -
  let ?F = "filter (\<lambda>x. window_complete wm' x \<and> \<not> window_complete wm x) A'"
  from m consider (old) "m \<in> set E" | (new) "m \<in> set (metrics_query ?F)" by auto
  then show ?thesis
  proof cases
    case old
    then have "summary_key m \<in> key_of ` {x \<in> set A. window_complete wm x}"
      using keys by auto
    then obtain x where x: "key_of x = summary_key m" "window_complete wm x" by auto
    have "key_of r \<noteq> summary_key m" if "\<not> window_complete wm r"
      using that x complete_key[of r x wm] by auto
    then have "filter (\<lambda>x. key_of x = summary_key m) A' =
                 filter (\<lambda>x. key_of x = summary_key m) A"
      by (simp add: A')
    with IH[OF old] show ?thesis by simp
  next
    case new
    then obtain k where k: "k \<in> set (map key_of ?F)"
      and mk: "m = metrics_select k (filter (\<lambda>x. key_of x = k) ?F)"
      by (auto simp: metrics_query_def)
    from k obtain y where y: "y \<in> set A'" "key_of y = k"
      "window_complete wm' y" "\<not> window_complete wm y" by auto
    have "filter (\<lambda>x. key_of x = k) ?F = filter (\<lambda>x. key_of x = k) A'"
      unfolding filter_filter
    proof (rule filter_cong[OF refl])
      fix x assume "x \<in> set A'"
      show "((window_complete wm' x \<and> \<not> window_complete wm x) \<and> key_of x = k) = (key_of x = k)"
        using y complete_key[of x y wm] complete_key[of x y wm'] by auto
    qed
    with mk have "m = metrics_select k (filter (\<lambda>x. key_of x = k) A')" by simp
    then show ?thesis by (simp add: summary_key_select)
  qed
qed

lemma emitted_content:
  "m \<in> set (emitted initial_state evs) \<Longrightarrow>
     m = metrics_select (summary_key m)
           (filter (\<lambda>x. key_of x = summary_key m) (accepted initial_state evs))"
proof (induction evs arbitrary: m rule: rev_induct)
  case Nil
  then show ?case by simp
next
  case (snoc r evs)
  from emitted_keys[of evs]
  have keys: "set (map summary_key (emitted initial_state evs)) =
      key_of ` {x \<in> set (accepted initial_state evs).
                 window_complete (watermark (state_after initial_state evs)) x}"
    by simp
  from snoc.prems
  have m: "m \<in> set (emitted initial_state evs @
      metrics_query
        (filter (\<lambda>x. window_complete (advance (watermark (state_after initial_state evs)) r) x \<and>
                     \<not> window_complete (watermark (state_after initial_state evs)) x)
           (accepted initial_state (evs @ [r]))))"
    by (simp only: emitted_snoc)
  show ?case
    by (rule content_step[OF accepted_snoc keys snoc.IH m])
qed

lemma emitted_group_nonempty:
  assumes "m \<in> set (emitted initial_state evs)"
  shows "filter (\<lambda>x. key_of x = summary_key m) (accepted initial_state evs) \<noteq> []"
proof -
  from assms have "summary_key m \<in> set (map summary_key (emitted initial_state evs))" by simp
  then have "summary_key m \<in> key_of ` {x \<in> set (accepted initial_state evs).
      window_complete (watermark (state_after initial_state evs)) x}"
    using emitted_keys[of evs] by simp
  then obtain x where "x \<in> set (accepted initial_state evs)" "key_of x = summary_key m" by auto
  then show ?thesis by (auto simp: filter_empty_conv)
qed








text \<open>
  Claim C9. Every summary written by a run is the \<^verbatim>\<open>SELECT\<close> list over a group that is
  not empty: \<^verbatim>\<open>COUNT(*)\<close> and \<^verbatim>\<open>sensor_count\<close> are at least 1, and the division of
  \<^verbatim>\<open>anomaly_rate\<close> is by that count and has a value.
\<close>

theorem summary_count_positive:
  assumes "m \<in> set (emitted initial_state evs)"
  shows "let g = filter (\<lambda>r. key_of r = summary_key m) (accepted initial_state evs)
         in m = metrics_select (summary_key m) g \<and> g \<noteq> [] \<and> 1 \<le> COUNT g \<and>
            1 \<le> sensor_count m \<and>
            anomaly_rate m =
              map_option (\<lambda>x. ROUND x 3)
                (Some (real_of_int (sum_list (map (\<lambda>r. if is_anomaly r then 1 else 0) g)) /
                       real_of_int (COUNT g)))"
proof -
  define g where "g = filter (\<lambda>r. key_of r = summary_key m) (accepted initial_state evs)"
  have ne: "g \<noteq> []" unfolding g_def by (rule emitted_group_nonempty[OF assms])
  have m: "m = metrics_select (summary_key m) g" unfolding g_def by (rule emitted_content[OF assms])
  from ne have "Suc 0 \<le> length g" by (cases g) simp_all
  then have c: "1 \<le> COUNT g" by (simp add: COUNT_def)
  have "sensor_count (metrics_select (summary_key m) g) = COUNT g"
    by (simp add: metrics_select_def)
  then have sc: "sensor_count m = COUNT g" by (simp only: m[symmetric])
  have "anomaly_rate (metrics_select (summary_key m) g) =
              map_option (\<lambda>x. ROUND x 3)
                (Some (real_of_int (sum_list (map (\<lambda>r. if is_anomaly r then 1 else 0) g)) /
                       real_of_int (COUNT g)))"
    using ne c by (simp add: metrics_select_def SUM_int_def DIVIDE_def COUNT_def)
  then have ar: "anomaly_rate m =
              map_option (\<lambda>x. ROUND x 3)
                (Some (real_of_int (sum_list (map (\<lambda>r. if is_anomaly r then 1 else 0) g)) /
                       real_of_int (COUNT g)))"
    by (simp only: m[symmetric])
  from m ne c sc ar show ?thesis
    unfolding Let_def g_def[symmetric] by simp
qed

text \<open>
  Two rows of one building in one window and a row that completes it: the summary
  written has \<^verbatim>\<open>sensor_count\<close> 2.
\<close>

theorem summary_count_positive_witness:
  "emitted initial_state
     [\<lparr> sensor_id = ''sensor_001'', event_time = 1705314610000, temperature = 19,
         humidity = 48, pressure = 1013.25, is_anomaly = False,
         building = ''Building_002'', floor_no = 1, room = ''Room_1'', model = ''SensorX'',
         firmware_version = ''1.0'', battery_level = 80 \<rparr>,
       \<lparr> sensor_id = ''sensor_001'', event_time = 1705314620000, temperature = 20,
         humidity = 48, pressure = 1013.25, is_anomaly = False,
         building = ''Building_002'', floor_no = 1, room = ''Room_1'', model = ''SensorX'',
         firmware_version = ''1.0'', battery_level = 80 \<rparr>,
       \<lparr> sensor_id = ''sensor_001'', event_time = 1705314670000, temperature = 21.5,
         humidity = 48, pressure = 1013.25, is_anomaly = False,
         building = ''Building_002'', floor_no = 1, room = ''Room_1'', model = ''SensorX'',
         firmware_version = ''1.0'', battery_level = 80 \<rparr>] =
   [\<lparr> window_start = 1705314600000, window_end = 1705314660000,
      building = ''Building_002'', sensor_count = 2, avg_temperature = Some 19.5,
      avg_humidity = Some 48, avg_pressure = Some 1013.25, anomaly_count = Some 0,
      anomaly_rate = Some 0, low_battery_count = Some 0 \<rparr>] \<and>
   (1::int) \<le> sensor_count
     \<lparr> window_start = 1705314600000, window_end = 1705314660000,
      building = ''Building_002'', sensor_count = 2, avg_temperature = Some 19.5,
      avg_humidity = Some 48, avg_pressure = Some 1013.25, anomaly_count = Some 0,
      anomaly_rate = Some 0, low_battery_count = Some 0 \<rparr>"
proof -
  have e: "emitted initial_state
     [\<lparr> sensor_id = ''sensor_001'', event_time = 1705314610000, temperature = 19,
         humidity = 48, pressure = 1013.25, is_anomaly = False,
         building = ''Building_002'', floor_no = 1, room = ''Room_1'', model = ''SensorX'',
         firmware_version = ''1.0'', battery_level = 80 \<rparr>,
       \<lparr> sensor_id = ''sensor_001'', event_time = 1705314620000, temperature = 20,
         humidity = 48, pressure = 1013.25, is_anomaly = False,
         building = ''Building_002'', floor_no = 1, room = ''Room_1'', model = ''SensorX'',
         firmware_version = ''1.0'', battery_level = 80 \<rparr>,
       \<lparr> sensor_id = ''sensor_001'', event_time = 1705314670000, temperature = 21.5,
         humidity = 48, pressure = 1013.25, is_anomaly = False,
         building = ''Building_002'', floor_no = 1, room = ''Room_1'', model = ''SensorX'',
         firmware_version = ''1.0'', battery_level = 80 \<rparr>] =
   [\<lparr> window_start = 1705314600000, window_end = 1705314660000,
      building = ''Building_002'', sensor_count = 2, avg_temperature = Some 19.5,
      avg_humidity = Some 48, avg_pressure = Some 1013.25, anomaly_count = Some 0,
      anomaly_rate = Some 0, low_battery_count = Some 0 \<rparr>]"
    by code_simp
  have "\<lparr> window_start = 1705314600000, window_end = 1705314660000,
      building = ''Building_002'', sensor_count = 2, avg_temperature = Some 19.5,
      avg_humidity = Some 48, avg_pressure = Some 1013.25, anomaly_count = Some 0,
      anomaly_rate = Some 0, low_battery_count = Some 0 \<rparr>
    \<in> set (emitted initial_state
     [\<lparr> sensor_id = ''sensor_001'', event_time = 1705314610000, temperature = 19,
         humidity = 48, pressure = 1013.25, is_anomaly = False,
         building = ''Building_002'', floor_no = 1, room = ''Room_1'', model = ''SensorX'',
         firmware_version = ''1.0'', battery_level = 80 \<rparr>,
       \<lparr> sensor_id = ''sensor_001'', event_time = 1705314620000, temperature = 20,
         humidity = 48, pressure = 1013.25, is_anomaly = False,
         building = ''Building_002'', floor_no = 1, room = ''Room_1'', model = ''SensorX'',
         firmware_version = ''1.0'', battery_level = 80 \<rparr>,
       \<lparr> sensor_id = ''sensor_001'', event_time = 1705314670000, temperature = 21.5,
         humidity = 48, pressure = 1013.25, is_anomaly = False,
         building = ''Building_002'', floor_no = 1, room = ''Room_1'', model = ''SensorX'',
         firmware_version = ''1.0'', battery_level = 80 \<rparr>])"
    by (simp only: e list.set insertI1)
  from summary_count_positive[OF this] e show ?thesis
    unfolding Let_def by blast
qed








end
